theory Spec2Isabelle
  imports Complex_Main "HOL-Library.AList"
begin

section \<open>Text: the string operations of the source\<close>

text \<open>
  A Python \<open>str\<close> is modelled as a \<open>string\<close>, one \<open>char\<close> per code point; the alphabet
  of the model is therefore the code points below 256. On that alphabet \<open>str.isspace\<close>,
  which is also the class \<open>\s\<close> of \<open>re\<close> and the set that \<open>str.strip()\<close> removes, holds
  of the code points 9 to 13, 28 to 32, 133 and 160, and the class \<open>\d\<close> is the ten ASCII
  digits.
\<close>

definition isspace :: "char \<Rightarrow> bool" where
  "isspace c = (let n = (of_char c :: nat)
                in (9 \<le> n \<and> n \<le> 13) \<or> (28 \<le> n \<and> n \<le> 32) \<or> n = 133 \<or> n = 160)"

definition isdigit :: "char \<Rightarrow> bool" where
  "isdigit c = (let n = (of_char c :: nat) in 48 \<le> n \<and> n \<le> 57)"

definition lstrip :: "string \<Rightarrow> string" where
  "lstrip s = dropWhile isspace s"

definition rstrip :: "string \<Rightarrow> string" where
  "rstrip s = rev (dropWhile isspace (rev s))"

definition strip :: "string \<Rightarrow> string" where
  "strip s = rstrip (lstrip s)"

text \<open>\<open>s.split(d)\<close> for a one-character separator: never empty, \<open>''.split(d) = ['']\<close>.\<close>

fun split_on :: "char \<Rightarrow> string \<Rightarrow> string list" where
  "split_on d [] = [[]]"
| "split_on d (c # cs) =
     (if c = d then [] # split_on d cs
      else (case split_on d cs of [] \<Rightarrow> [[c]] | w # ws \<Rightarrow> (c # w) # ws))"

text \<open>\<open>d.join(xs)\<close> for a one-character separator.\<close>

fun join_with :: "char \<Rightarrow> string list \<Rightarrow> string" where
  "join_with d [] = []"
| "join_with d [x] = x"
| "join_with d (x # y # ys) = x @ d # join_with d (y # ys)"

definition startswith :: "string \<Rightarrow> string \<Rightarrow> bool" where
  "startswith s p = (take (length p) s = p)"

text \<open>The value of a string of ASCII digits, as \<open>int(page_str)\<close> reads it.\<close>

definition digit_val :: "char \<Rightarrow> int" where
  "digit_val c = int (of_char c) - 48"

definition int_of_digits :: "string \<Rightarrow> int" where
  "int_of_digits s = foldl (\<lambda>acc c. 10 * acc + digit_val c) 0 s"

section \<open>Regular expressions: the backtracking search of \<open>re\<close>\<close>

text \<open>
  The two patterns of the source are kept as data and run by one matcher. \<open>ms r s g\<close> is
  the list of all ways in which \<open>r\<close> matches a prefix of \<open>s\<close>, each given as the unread rest
  of \<open>s\<close> and the groups captured so far, in the order in which a backtracking matcher
  tries them: a greedy star tries one more iteration before it stops, a lazy star stops
  before it tries one more. The head of the list is the match \<open>re\<close> reports. An iteration
  that reads nothing is not repeated; the bodies of the stars below always read a
  character.
\<close>

datatype cclass =
    CChar char          \<comment> \<open>a literal character\<close>
  | CSpace              \<comment> \<open>\<open>\s\<close>\<close>
  | CDigit              \<comment> \<open>\<open>\d\<close>\<close>
  | CRange char char    \<comment> \<open>\<open>[a-b]\<close>\<close>
  | CDot                \<comment> \<open>\<open>.\<close> without DOTALL: anything but a newline\<close>
  | CNot char           \<comment> \<open>\<open>[^a]\<close>\<close>

fun cmatch :: "cclass \<Rightarrow> char \<Rightarrow> bool" where
  "cmatch (CChar a) c = (c = a)"
| "cmatch CSpace c = isspace c"
| "cmatch CDigit c = isdigit c"
| "cmatch (CRange a b) c = ((of_char a :: nat) \<le> of_char c \<and> (of_char c :: nat) \<le> of_char b)"
| "cmatch CDot c = (c \<noteq> CHR 0x0A)"
| "cmatch (CNot a) c = (c \<noteq> a)"

datatype regex =
    Cls cclass
  | Cat regex regex
  | Star regex          \<comment> \<open>\<open>r*\<close>, greedy\<close>
  | LazyStar regex      \<comment> \<open>\<open>r*?\<close>\<close>
  | Grp nat regex       \<comment> \<open>capturing group number \<open>n\<close>\<close>
  | Eol                 \<comment> \<open>\<open>$\<close> without MULTILINE: the end, or before a final newline\<close>

abbreviation Plus :: "regex \<Rightarrow> regex" where
  "Plus r \<equiv> Cat r (Star r)"

abbreviation LazyPlus :: "regex \<Rightarrow> regex" where
  "LazyPlus r \<equiv> Cat r (LazyStar r)"

type_synonym caps = "(nat \<times> string) list"

fun ms :: "regex \<Rightarrow> string \<Rightarrow> caps \<Rightarrow> (string \<times> caps) list" where
  "ms (Cls c) s g = (case s of [] \<Rightarrow> [] | x # xs \<Rightarrow> if cmatch c x then [(xs, g)] else [])"
| "ms (Cat a b) s g = concat (map (\<lambda>(s', g'). ms b s' g') (ms a s g))"
| "ms (Star r) s g =
     concat (map (\<lambda>(s', g'). if length s' < length s then ms (Star r) s' g' else [])
                 (ms r s g)) @ [(s, g)]"
| "ms (LazyStar r) s g =
     (s, g) # concat (map (\<lambda>(s', g'). if length s' < length s then ms (LazyStar r) s' g' else [])
                          (ms r s g))"
| "ms (Grp i r) s g =
     map (\<lambda>(s', g'). (s', (i, take (length s - length s') s) # g')) (ms r s g)"
| "ms Eol s g = (if s = [] \<or> s = [CHR 0x0A] then [(s, g)] else [])"

text \<open>\<open>pattern.match(s)\<close>: the first match at the start of \<open>s\<close>, as its rest and groups.\<close>

definition re_match :: "regex \<Rightarrow> string \<Rightarrow> (string \<times> caps) option" where
  "re_match r s = (case ms r s [] of [] \<Rightarrow> None | m # _ \<Rightarrow> Some m)"

definition group :: "caps \<Rightarrow> nat \<Rightarrow> string" where
  "group g i = (case map_of g i of None \<Rightarrow> [] | Some v \<Rightarrow> v)"

section \<open>The pattern fallback extractor\<close>

text \<open>
  An entry of a table of contents is the dictionary with the keys \<open>title\<close>, \<open>page\<close> and
  \<open>level\<close>. The type of the page is a parameter: the fallback extractor and the outline
  builder hold an integer there, the validator keeps the object it was given.
\<close>

record 'p toc_item =
  title :: string
  page :: 'p
  level :: int

text \<open>
  \<open>toc_line_pattern\<close> is
  \<^verbatim>\<open>^(\s*)([0-9]+(?:\.[0-9]+)*)\s+(.+?)\s+(\d+)$\<close>;
  it is used with \<open>match\<close>, which starts at the beginning of the line, so the leading
  anchor adds nothing.
\<close>

definition toc_line_pattern :: regex where
  "toc_line_pattern =
     Cat (Grp 1 (Star (Cls CSpace)))
    (Cat (Grp 2 (Cat (Plus (Cls (CRange CHR ''0'' CHR ''9'')))
                     (Star (Cat (Cls (CChar CHR ''.'')) (Plus (Cls (CRange CHR ''0'' CHR ''9'')))))))
    (Cat (Plus (Cls CSpace))
    (Cat (Grp 3 (LazyPlus (Cls CDot)))
    (Cat (Plus (Cls CSpace))
    (Cat (Grp 4 (Plus (Cls CDigit)))
         Eol)))))"

text \<open>
  The body of the loop over the lines: the entry a line contributes, if any. The line is
  stripped before it is matched. \<open>int(page_str)\<close> is taken to succeed on the digits the
  pattern captured.
\<close>

definition parse_toc_line :: "int \<Rightarrow> string \<Rightarrow> int toc_item option" where
  "parse_toc_line page_offset raw_line =
     (let line = strip raw_line in
      if line = [] then None
      else (case re_match toc_line_pattern line of
              None \<Rightarrow> None
            | Some (_, g) \<Rightarrow>
                (let indent = group g 1; numbering = group g 2;
                     title' = group g 3; page_str = group g 4;
                     level0 = int (length (split_on CHR ''.'' numbering));
                     level1 = (if indent \<noteq> [] \<and> level0 = 1
                               then level0 + int (length indent) div 4 else level0)
                 in Some \<lparr>title = strip title',
                          page = int_of_digits page_str + page_offset,
                          level = max 1 level1\<rparr>)))"

text \<open>Keeping the first entry of each key, in order, as the loop over \<open>seen\<close> does.\<close>

fun dedup_by :: "('a \<Rightarrow> 'k) \<Rightarrow> 'k list \<Rightarrow> 'a list \<Rightarrow> 'a list" where
  "dedup_by key seen [] = []"
| "dedup_by key seen (x # xs) =
     (if key x \<in> set seen then dedup_by key seen xs
      else x # dedup_by key (key x # seen) xs)"

text \<open>\<open>list.sort(key=...)\<close> is stable, as \<open>sort_key\<close> is.\<close>

definition extract_toc_with_simple_parsing :: "string \<Rightarrow> int \<Rightarrow> int toc_item list" where
  "extract_toc_with_simple_parsing toc_text page_offset =
     (let toc_data = List.map_filter (parse_toc_line page_offset) (split_on CHR 0x0A toc_text)
      in if toc_data \<noteq> []
         then sort_key page (dedup_by (\<lambda>item. (title item, page item)) [] toc_data)
         else [])"

section \<open>Python values and the library functions the source calls\<close>

text \<open>
  The candidates the validator receives are whatever \<open>json.loads\<close> produced: any JSON
  value. A float is its mathematical value, or an infinity, or not a number; the
  functions of floats that round (reading one from text, printing one) are not computed
  here but taken from \<open>pylib\<close>.
\<close>

datatype pyfloat = Finite rat | PosInf | NegInf | NaN

datatype pyval =
    PNone
  | PBool bool
  | PInt int
  | PFloat pyfloat
  | PStr string
  | PList "pyval list"
  | PDict "(string \<times> pyval) list"

datatype pyexn =
    ValueError | TypeError | OverflowError | KeyError | JSONDecodeError | RecursionError
  | OtherError string

text \<open>
  \<open>json_loads\<close> is \<open>json.loads\<close>, \<open>float_of_str\<close> is \<open>float\<close> on a \<open>str\<close> (\<open>None\<close> for its
  \<open>ValueError\<close>), \<open>int_of_str\<close> is \<open>int\<close> on a \<open>str\<close> (likewise), \<open>repr_other\<close> is
  \<open>str\<close> on a float, a list or a dictionary, and \<open>float_add_int\<close> is the sum of a float
  and an \<open>int\<close>. The theorems below hold for every such library.
\<close>

record pylib =
  json_loads :: "string \<Rightarrow> pyexn + pyval"
  float_of_str :: "string \<Rightarrow> pyfloat option"
  int_of_str :: "string \<Rightarrow> int option"
  repr_other :: "pyval \<Rightarrow> string"
  float_add_int :: "pyfloat \<Rightarrow> int \<Rightarrow> pyexn + pyfloat"

text \<open>\<open>str(n)\<close> for an integer.\<close>

function str_of_nat :: "nat \<Rightarrow> string" where
  "str_of_nat n = (if n < 10 then [char_of (48 + n)]
                   else str_of_nat (n div 10) @ [char_of (48 + n mod 10)])"
  by pat_completeness auto
termination
  by (relation "measure id") auto

declare str_of_nat.simps [simp del]

definition str_of_int :: "int \<Rightarrow> string" where
  "str_of_int i = (if i < 0 then CHR ''-'' # str_of_nat (nat (- i)) else str_of_nat (nat i))"

definition py_str :: "pylib \<Rightarrow> pyval \<Rightarrow> string" where
  "py_str lib v =
     (case v of
        PStr s \<Rightarrow> s
      | PInt i \<Rightarrow> str_of_int i
      | PBool b \<Rightarrow> (if b then ''True'' else ''False'')
      | PNone \<Rightarrow> ''None''
      | _ \<Rightarrow> repr_other lib v)"

text \<open>\<open>int(f)\<close> for a float: truncation; an infinity overflows, not-a-number is a \<open>ValueError\<close>.\<close>

definition int_of_float :: "pyfloat \<Rightarrow> pyexn + int" where
  "int_of_float f =
     (case f of
        Finite r \<Rightarrow> Inr (if 0 \<le> r then \<lfloor>r\<rfloor> else \<lceil>r\<rceil>)
      | NaN \<Rightarrow> Inl ValueError
      | _ \<Rightarrow> Inl OverflowError)"

text \<open>The value of an \<open>int\<close> object in a comparison; \<open>bool\<close> is a subclass of \<open>int\<close>.\<close>

definition int_val :: "pyval \<Rightarrow> int" where
  "int_val v = (case v of PInt i \<Rightarrow> i | PBool b \<Rightarrow> (if b then 1 else 0) | _ \<Rightarrow> 0)"

section \<open>The validator\<close>

text \<open>
  \<open>if not isinstance(x, int): x = int(float(x))\<close>: an \<open>int\<close> or \<open>bool\<close> is kept as it is,
  a float or a text is converted through \<open>float\<close>, anything else is a \<open>TypeError\<close>.
\<close>

definition coerce_int :: "pylib \<Rightarrow> pyval \<Rightarrow> pyexn + pyval" where
  "coerce_int lib v =
     (case v of
        PInt i \<Rightarrow> Inr v
      | PBool b \<Rightarrow> Inr v
      | PFloat f \<Rightarrow> map_sum id PInt (int_of_float f)
      | PStr s \<Rightarrow> (case float_of_str lib s of
                     None \<Rightarrow> Inl ValueError
                   | Some f \<Rightarrow> map_sum id PInt (int_of_float f))
      | _ \<Rightarrow> Inl TypeError)"

text \<open>
  What happens to one candidate: it is kept, cleaned; or dropped with one of the five
  diagnostics of the loop; or its conversion raises an exception that the handler for
  \<open>(ValueError, TypeError)\<close> does not catch.
\<close>

datatype drop_reason = NotADict | MissingField | PageOutOfRange | EmptyTitle | ConversionFailed

datatype item_result = Keep "pyval toc_item" | Drop drop_reason | Raise pyexn

definition caught :: "pyexn \<Rightarrow> item_result" where
  "caught e = (if e = ValueError \<or> e = TypeError then Drop ConversionFailed else Raise e)"

definition validate_item :: "pylib \<Rightarrow> int \<Rightarrow> pyval \<Rightarrow> item_result" where
  "validate_item lib max_pages item =
     (case item of
        PDict d \<Rightarrow>
          (case (map_of d ''title'', map_of d ''page'', map_of d ''level'') of
             (Some t, Some p, Some l) \<Rightarrow>
               (case coerce_int lib p of
                  Inl e \<Rightarrow> caught e
                | Inr page' \<Rightarrow>
                    if int_val page' \<noteq> - 1 \<and> (int_val page' < 1 \<or> int_val page' > max_pages)
                    then Drop PageOutOfRange
                    else (let title' = strip (py_str lib t) in
                          if title' = [] then Drop EmptyTitle
                          else (case coerce_int lib l of
                                  Inl e \<Rightarrow> caught e
                                | Inr level' \<Rightarrow>
                                    Keep \<lparr>title = title', page = page',
                                          level = min 6 (max 1 (int_val level'))\<rparr>)))
           | _ \<Rightarrow> Drop MissingField)
      | _ \<Rightarrow> Drop NotADict)"

fun validate_loop :: "pylib \<Rightarrow> int \<Rightarrow> pyval list \<Rightarrow> pyexn + pyval toc_item list" where
  "validate_loop lib max_pages [] = Inr []"
| "validate_loop lib max_pages (item # items) =
     (case validate_item lib max_pages item of
        Raise e \<Rightarrow> Inl e
      | Drop _ \<Rightarrow> validate_loop lib max_pages items
      | Keep v \<Rightarrow> map_sum id ((#) v) (validate_loop lib max_pages items))"

text \<open>The key of the second pass is the text \<open>f"{title}:{page}"\<close>.\<close>

definition dedup_key :: "pylib \<Rightarrow> pyval toc_item \<Rightarrow> string" where
  "dedup_key lib item = title item @ '':'' @ py_str lib (page item)"

definition validate_toc_data :: "pylib \<Rightarrow> pyval \<Rightarrow> int \<Rightarrow> pyexn + pyval toc_item list" where
  "validate_toc_data lib toc_data max_pages =
     (case toc_data of
        PList items \<Rightarrow> map_sum id (dedup_by (dedup_key lib) []) (validate_loop lib max_pages items)
      | _ \<Rightarrow> Inr [])"

text \<open>An entry as the dictionary it is, to be handed to the validator again.\<close>

definition as_dict :: "pyval toc_item \<Rightarrow> pyval" where
  "as_dict item =
     PDict [(''title'', PStr (title item)), (''page'', page item), (''level'', PInt (level item))]"

section \<open>A reference decoder for JSON\<close>

text \<open>
  \<open>json.loads\<close> belongs to the Python library; the functions of the source take it from
  \<open>pylib\<close>. To run them on concrete texts, \<open>json_ref\<close> decodes JSON as the library documents
  it: white space is blank, tab, line feed and carriage return; a value is a string, an
  object, an array, \<open>null\<close>, \<open>true\<close>, \<open>false\<close>, a number, \<open>NaN\<close>, \<open>Infinity\<close> or
  \<open>-Infinity\<close>; a number without fraction and exponent is an \<open>int\<close>, any other is handed
  to \<open>float\<close>; a repeated key of an object keeps its first position and its last value;
  text after the value is an error. An escape \<open>\uXXXX\<close> for a code point above 255 denotes
  a string outside the alphabet of this model and is reported as \<open>OtherError\<close>. The
  counter bounds the number of nested calls; \<open>json_ref\<close> starts it high enough for the
  whole text.
\<close>

definition json_ws :: "char \<Rightarrow> bool" where
  "json_ws c = (c = CHR 0x20 \<or> c = CHR 0x09 \<or> c = CHR 0x0A \<or> c = CHR 0x0D)"

definition skip_ws :: "string \<Rightarrow> string" where
  "skip_ws s = dropWhile json_ws s"

definition hex_val :: "char \<Rightarrow> nat option" where
  "hex_val c =
     (let n = (of_char c :: nat) in
      if 48 \<le> n \<and> n \<le> 57 then Some (n - 48)
      else if 65 \<le> n \<and> n \<le> 70 then Some (n - 55)
      else if 97 \<le> n \<and> n \<le> 102 then Some (n - 87)
      else None)"

definition hex4 :: "string \<Rightarrow> nat option" where
  "hex4 s =
     (case map hex_val (take 4 s) of
        [Some a, Some b, Some c, Some d] \<Rightarrow> Some (((a * 16 + b) * 16 + c) * 16 + d)
      | _ \<Rightarrow> None)"

definition escape_char :: "char \<Rightarrow> char option" where
  "escape_char e =
     (if e = CHR 0x22 \<or> e = CHR 0x5C \<or> e = CHR ''/'' then Some e
      else if e = CHR ''b'' then Some (CHR 0x08)
      else if e = CHR ''f'' then Some (CHR 0x0C)
      else if e = CHR ''n'' then Some (CHR 0x0A)
      else if e = CHR ''r'' then Some (CHR 0x0D)
      else if e = CHR ''t'' then Some (CHR 0x09)
      else None)"

text \<open>The text of a string, read from behind its opening quote.\<close>

fun scan_string :: "string \<Rightarrow> string \<Rightarrow> pyexn + (string \<times> string)" where
  "scan_string acc [] = Inl JSONDecodeError"
| "scan_string acc (c # cs) =
     (if c = CHR 0x22 then Inr (acc, cs)
      else if c = CHR 0x5C then
        (case cs of
           [] \<Rightarrow> Inl JSONDecodeError
         | e # es \<Rightarrow>
             if e = CHR ''u'' then
               (case hex4 es of
                  None \<Rightarrow> Inl JSONDecodeError
                | Some n \<Rightarrow>
                    if n < 256 then scan_string (acc @ [char_of n]) (drop 4 es)
                    else Inl (OtherError ''code point above 255''))
             else (case escape_char e of
                     None \<Rightarrow> Inl JSONDecodeError
                   | Some x \<Rightarrow> scan_string (acc @ [x]) es))
      else if (of_char c :: nat) < 32 then Inl JSONDecodeError
      else scan_string (acc @ [c]) cs)"

text \<open>
  A number, by \<^verbatim>\<open>(-?(?:0|[1-9][0-9]*))(\.[0-9]+)?([eE][-+]?[0-9]+)?\<close>: the three parts
  of the longest match, and the rest.
\<close>

definition scan_integer :: "string \<Rightarrow> (string \<times> string) option" where
  "scan_integer s =
     (let sign = (if startswith s ''-'' then ''-'' else []);
          s1 = drop (length sign) s
      in case s1 of
           [] \<Rightarrow> None
         | c # cs \<Rightarrow>
             if c = CHR ''0'' then Some (sign @ [c], cs)
             else if isdigit c then Some (sign @ c # takeWhile isdigit cs, dropWhile isdigit cs)
             else None)"

definition scan_frac :: "string \<Rightarrow> string \<times> string" where
  "scan_frac s =
     (case s of
        c # cs \<Rightarrow>
          if c = CHR ''.'' \<and> takeWhile isdigit cs \<noteq> []
          then (c # takeWhile isdigit cs, dropWhile isdigit cs) else ([], s)
      | [] \<Rightarrow> ([], s))"

definition scan_exp :: "string \<Rightarrow> string \<times> string" where
  "scan_exp s =
     (case s of
        c # cs \<Rightarrow>
          if c = CHR ''e'' \<or> c = CHR ''E'' then
            (let sign = (if startswith cs ''-'' then ''-'' else if startswith cs ''+'' then ''+'' else []);
                 ds = drop (length sign) cs
             in if takeWhile isdigit ds \<noteq> []
                then (c # sign @ takeWhile isdigit ds, dropWhile isdigit ds) else ([], s))
          else ([], s)
      | [] \<Rightarrow> ([], s))"

definition int_of_literal :: "string \<Rightarrow> int" where
  "int_of_literal s = (if startswith s ''-'' then - int_of_digits (tl s) else int_of_digits s)"

definition scan_number :: "(string \<Rightarrow> pyfloat option) \<Rightarrow> string \<Rightarrow> (pyexn + (pyval \<times> string)) option" where
  "scan_number fl s =
     (case scan_integer s of
        None \<Rightarrow> None
      | Some (integer, r1) \<Rightarrow>
          (let (frac, r2) = scan_frac r1; (exp, r3) = scan_exp r2 in
           if frac = [] \<and> exp = [] then Some (Inr (PInt (int_of_literal integer), r3))
           else (case fl (integer @ frac @ exp) of
                   None \<Rightarrow> Some (Inl ValueError)
                 | Some f \<Rightarrow> Some (Inr (PFloat f, r3)))))"

definition scan_constant :: "(string \<Rightarrow> pyfloat option) \<Rightarrow> string \<Rightarrow> pyexn + (pyval \<times> string)" where
  "scan_constant fl s =
     (if startswith s ''null'' then Inr (PNone, drop 4 s)
      else if startswith s ''true'' then Inr (PBool True, drop 4 s)
      else if startswith s ''false'' then Inr (PBool False, drop 5 s)
      else (case scan_number fl s of
              Some r \<Rightarrow> r
            | None \<Rightarrow>
                if startswith s ''NaN'' then Inr (PFloat NaN, drop 3 s)
                else if startswith s ''Infinity'' then Inr (PFloat PosInf, drop 8 s)
                else if startswith s ''-Infinity'' then Inr (PFloat NegInf, drop 9 s)
                else Inl JSONDecodeError))"

fun jvalue :: "(string \<Rightarrow> pyfloat option) \<Rightarrow> nat \<Rightarrow> string \<Rightarrow> pyexn + (pyval \<times> string)"
  and jelems :: "(string \<Rightarrow> pyfloat option) \<Rightarrow> nat \<Rightarrow> pyval list \<Rightarrow> string \<Rightarrow> pyexn + (pyval \<times> string)"
  and jmembers :: "(string \<Rightarrow> pyfloat option) \<Rightarrow> nat \<Rightarrow> (string \<times> pyval) list \<Rightarrow> string \<Rightarrow> pyexn + (pyval \<times> string)"
where
  "jvalue fl 0 s = Inl RecursionError"
| "jvalue fl (Suc n) s =
     (case s of
        [] \<Rightarrow> Inl JSONDecodeError
      | c # cs \<Rightarrow>
          if c = CHR 0x22 then
            (case scan_string [] cs of Inl e \<Rightarrow> Inl e | Inr (t, r) \<Rightarrow> Inr (PStr t, r))
          else if c = CHR ''{'' then
            (case skip_ws cs of
               [] \<Rightarrow> Inl JSONDecodeError
             | x # r \<Rightarrow> if x = CHR ''}'' then Inr (PDict [], r) else jmembers fl n [] (x # r))
          else if c = CHR ''['' then
            (case skip_ws cs of
               [] \<Rightarrow> Inl JSONDecodeError
             | x # r \<Rightarrow> if x = CHR '']'' then Inr (PList [], r) else jelems fl n [] (x # r))
          else scan_constant fl s)"
| "jelems fl 0 acc s = Inl RecursionError"
| "jelems fl (Suc n) acc s =
     (case jvalue fl n s of
        Inl e \<Rightarrow> Inl e
      | Inr (v, r) \<Rightarrow>
          (case skip_ws r of
             [] \<Rightarrow> Inl JSONDecodeError
           | x # r' \<Rightarrow>
               if x = CHR '']'' then Inr (PList (acc @ [v]), r')
               else if x = CHR '','' then jelems fl n (acc @ [v]) (skip_ws r')
               else Inl JSONDecodeError))"
| "jmembers fl 0 acc s = Inl RecursionError"
| "jmembers fl (Suc n) acc s =
     (case s of
        [] \<Rightarrow> Inl JSONDecodeError
      | q # cs \<Rightarrow>
          if q \<noteq> CHR 0x22 then Inl JSONDecodeError
          else (case scan_string [] cs of
                  Inl e \<Rightarrow> Inl e
                | Inr (k, r) \<Rightarrow>
                    (case skip_ws r of
                       [] \<Rightarrow> Inl JSONDecodeError
                     | x # r1 \<Rightarrow>
                         if x \<noteq> CHR '':'' then Inl JSONDecodeError
                         else (case jvalue fl n (skip_ws r1) of
                                 Inl e \<Rightarrow> Inl e
                               | Inr (v, r2) \<Rightarrow>
                                   (case skip_ws r2 of
                                      [] \<Rightarrow> Inl JSONDecodeError
                                    | y # r3 \<Rightarrow>
                                        if y = CHR ''}'' then Inr (PDict (AList.update k v acc), r3)
                                        else if y = CHR '','' then
                                          jmembers fl n (AList.update k v acc) (skip_ws r3)
                                        else Inl JSONDecodeError)))))"

definition json_ref :: "(string \<Rightarrow> pyfloat option) \<Rightarrow> string \<Rightarrow> pyexn + pyval" where
  "json_ref fl s =
     (case jvalue fl (2 * length s + 2) (skip_ws s) of
        Inl e \<Rightarrow> Inl e
      | Inr (v, r) \<Rightarrow> if skip_ws r = [] then Inr v else Inl JSONDecodeError)"

text \<open>
  The library of the examples: the reference decoder, and floats without rounding.
  \<open>decimal_value\<close> reads a number in the form of a JSON number and refuses any other text;
  \<open>signed_int\<close> reads an optional sign and digits between white space and refuses any other
  text. No example prints a float or a container.
\<close>

definition decimal_value :: "string \<Rightarrow> pyfloat option" where
  "decimal_value s =
     (case scan_integer s of
        None \<Rightarrow> None
      | Some (integer, r1) \<Rightarrow>
          (let (frac, r2) = scan_frac r1; (exp, r3) = scan_exp r2;
               mantissa = int_of_literal (integer @ tl frac);
               e = (if exp = [] then 0
                    else if startswith (tl exp) ''-'' then - int_of_digits (drop 2 exp)
                    else if startswith (tl exp) ''+'' then int_of_digits (drop 2 exp)
                    else int_of_digits (tl exp)) - int (length (tl frac))
           in if r3 \<noteq> [] then None
              else Some (Finite (if 0 \<le> e then of_int mantissa * 10 ^ nat e
                                 else of_int mantissa / 10 ^ nat (- e)))))"

definition signed_int :: "string \<Rightarrow> int option" where
  "signed_int s =
     (let t = strip s;
          ds = (if startswith t ''-'' \<or> startswith t ''+'' then tl t else t)
      in if ds \<noteq> [] \<and> list_all isdigit ds
         then Some (if startswith t ''-'' then - int_of_digits ds else int_of_digits ds)
         else None)"

definition example_lib :: pylib where
  "example_lib =
     \<lparr>json_loads = json_ref decimal_value,
      float_of_str = decimal_value,
      int_of_str = signed_int,
      repr_other = (\<lambda>v. ''?''),
      float_add_int = (\<lambda>f i. case f of Finite r \<Rightarrow> Inr (Finite (r + of_int i)) | _ \<Rightarrow> Inr f)\<rparr>"

section \<open>The response parser\<close>

text \<open>The cleaning of the response: a wrapping fence, then a language tag line.\<close>

definition strip_fence :: "string \<Rightarrow> string" where
  "strip_fence clean =
     (if startswith clean ''```'' \<and> CHR 0x0A \<in> set clean then
        (let lines = split_on CHR 0x0A clean in
         strip (if 3 \<le> length lines \<and> strip (last lines) = ''```''
                then join_with CHR 0x0A (butlast (tl lines))
                else if 2 \<le> length lines then join_with CHR 0x0A (tl lines)
                else clean))
      else clean)"

definition strip_tag :: "string \<Rightarrow> string" where
  "strip_tag clean =
     (if startswith clean (''json'' @ [CHR 0x0A]) then strip (drop 5 clean)
      else if startswith clean (''JSON'' @ [CHR 0x0A]) then strip (drop 5 clean)
      else clean)"

definition clean_response :: "string \<Rightarrow> string" where
  "clean_response response_text = strip_tag (strip_fence (strip response_text))"

text \<open>
  One attempt to decode a text: a list is the result of the parser; any other value and a
  \<open>JSONDecodeError\<close> lead to the next attempt; another exception is not caught.
\<close>

datatype attempt = Got "pyval list" | Next | Abort pyexn

definition try_loads :: "pylib \<Rightarrow> string \<Rightarrow> attempt" where
  "try_loads lib text =
     (case json_loads lib text of
        Inr v \<Rightarrow> (case v of PList xs \<Rightarrow> Got xs | _ \<Rightarrow> Next)
      | Inl e \<Rightarrow> if e = JSONDecodeError then Next else Abort e)"

text \<open>\<open>s.find(c)\<close> and \<open>s.rfind(c)\<close>, with \<open>None\<close> for \<open>-1\<close>.\<close>

fun find_char :: "char \<Rightarrow> string \<Rightarrow> nat option" where
  "find_char c [] = None"
| "find_char c (x # xs) = (if x = c then Some 0 else map_option Suc (find_char c xs))"

definition rfind_char :: "char \<Rightarrow> string \<Rightarrow> nat option" where
  "rfind_char c s = map_option (\<lambda>i. length s - 1 - i) (find_char c (rev s))"

text \<open>The text from the first \<open>[\<close> to the last \<open>]\<close>, when the one is before the other.\<close>

definition bracket_candidate :: "string \<Rightarrow> string option" where
  "bracket_candidate clean =
     (case (find_char CHR ''['' clean, rfind_char CHR '']'' clean) of
        (Some json_start, Some json_end) \<Rightarrow>
          if json_start < json_end
          then Some (take (json_end + 1 - json_start) (drop json_start clean)) else None
      | _ \<Rightarrow> None)"

text \<open>
  \<open>json_pattern\<close> is \<^verbatim>\<open>(\[\s*\{[^}]*\}(\s*,\s*\{[^}]*\})*\s*\])\<close>.
  \<open>findall\<close> tries the pattern at each position from left to right and goes on behind
  a match; \<open>skip\<close> counts the characters of the last match still to be passed.
\<close>

definition json_object_pattern :: regex where
  "json_object_pattern =
     Cat (Cls (CChar CHR ''{'')) (Cat (Star (Cls (CNot CHR ''}''))) (Cls (CChar CHR ''}'')))"

definition json_pattern :: regex where
  "json_pattern =
     Grp 1 (Cat (Cls (CChar CHR ''[''))
           (Cat (Star (Cls CSpace))
           (Cat json_object_pattern
           (Cat (Star (Grp 2 (Cat (Star (Cls CSpace))
                             (Cat (Cls (CChar CHR '',''))
                             (Cat (Star (Cls CSpace))
                                  json_object_pattern)))))
           (Cat (Star (Cls CSpace))
                (Cls (CChar CHR '']'')))))))"

fun findall :: "regex \<Rightarrow> nat \<Rightarrow> string \<Rightarrow> caps list" where
  "findall r skip [] = []"
| "findall r (Suc skip) (c # cs) = findall r skip cs"
| "findall r 0 (c # cs) =
     (case re_match r (c # cs) of
        None \<Rightarrow> findall r 0 cs
      | Some (rest, g) \<Rightarrow> g # findall r (length cs - length rest) cs)"

fun first_list :: "pylib \<Rightarrow> string list \<Rightarrow> pyexn + pyval list" where
  "first_list lib [] = Inr []"
| "first_list lib (json_candidate # rest) =
     (case try_loads lib json_candidate of
        Got xs \<Rightarrow> Inr xs
      | Abort e \<Rightarrow> Inl e
      | Next \<Rightarrow> first_list lib rest)"

definition by_pattern :: "pylib \<Rightarrow> string \<Rightarrow> pyexn + pyval list" where
  "by_pattern lib clean = first_list lib (map (\<lambda>g. group g 1) (findall json_pattern 0 clean))"

definition parse_llm_response :: "pylib \<Rightarrow> string \<Rightarrow> pyexn + pyval list" where
  "parse_llm_response lib response_text =
     (let clean = clean_response response_text in
      case try_loads lib clean of
        Got xs \<Rightarrow> Inr xs
      | Abort e \<Rightarrow> Inl e
      | Next \<Rightarrow>
          (case bracket_candidate clean of
             None \<Rightarrow> by_pattern lib clean
           | Some json_candidate \<Rightarrow>
               (case try_loads lib json_candidate of
                  Got xs \<Rightarrow> Inr xs
                | Abort e \<Rightarrow> Inl e
                | Next \<Rightarrow> by_pattern lib clean)))"

section \<open>Extraction from text\<close>

text \<open>
  The model of the language model: whether \<open>self.llm\<close> is set, whether \<open>initialize()\<close>
  succeeds, and the content of the response to the prompts built around a text, or the
  exception \<open>invoke\<close> raises.
\<close>

record llm =
  llm_ready :: bool
  initialize_ok :: bool
  invoke :: "string \<Rightarrow> pyexn + string"

text \<open>\<open>if item['page'] != -1: item['page'] += page_offset\<close>, on one candidate.\<close>

definition shift_page :: "pylib \<Rightarrow> int \<Rightarrow> pyval \<Rightarrow> pyexn + pyval" where
  "shift_page lib page_offset item =
     (case item of
        PDict d \<Rightarrow>
          (case map_of d ''page'' of
             None \<Rightarrow> Inl KeyError
           | Some p \<Rightarrow>
               (case p of
                  PInt i \<Rightarrow>
                    Inr (PDict (if i \<noteq> - 1 then AList.update ''page'' (PInt (i + page_offset)) d else d))
                | PBool b \<Rightarrow>
                    Inr (PDict (AList.update ''page'' (PInt ((if b then 1 else 0) + page_offset)) d))
                | PFloat f \<Rightarrow>
                    if f = Finite (- 1) then Inr item
                    else (case float_add_int lib f page_offset of
                            Inl e \<Rightarrow> Inl e
                          | Inr f' \<Rightarrow> Inr (PDict (AList.update ''page'' (PFloat f') d)))
                | _ \<Rightarrow> Inl TypeError))
      | _ \<Rightarrow> Inl TypeError)"

fun apply_offset :: "pylib \<Rightarrow> int \<Rightarrow> pyval list \<Rightarrow> pyexn + pyval list" where
  "apply_offset lib page_offset [] = Inr []"
| "apply_offset lib page_offset (item # items) =
     (case shift_page lib page_offset item of
        Inl e \<Rightarrow> Inl e
      | Inr item' \<Rightarrow> map_sum id ((#) item') (apply_offset lib page_offset items))"

text \<open>An entry of the fallback extractor among the entries of the validator.\<close>

definition as_py :: "int toc_item \<Rightarrow> pyval toc_item" where
  "as_py item = \<lparr>title = title item, page = PInt (page item), level = level item\<rparr>"

text \<open>
  \<open>extract_toc_from_text\<close>: the result, or the exception it raises again, and whether
  \<open>self.llm\<close> is set afterwards.
\<close>

definition extract_toc_from_text ::
  "pylib \<Rightarrow> llm \<Rightarrow> string \<Rightarrow> int \<Rightarrow> (pyexn + pyval toc_item list) \<times> bool" where
  "extract_toc_from_text lib m toc_text page_offset =
     (if \<not> llm_ready m \<and> \<not> initialize_ok m
      then (Inr (map as_py (extract_toc_with_simple_parsing toc_text page_offset)), False)
      else (case invoke m toc_text of
              Inl e \<Rightarrow> (Inl e, True)
            | Inr content \<Rightarrow>
                (case parse_llm_response lib content of
                   Inl e \<Rightarrow> (Inl e, True)
                 | Inr toc_data \<Rightarrow>
                     if toc_data = []
                     then (Inr (map as_py (extract_toc_with_simple_parsing toc_text page_offset)), True)
                     else (case (if page_offset \<noteq> 0 then apply_offset lib page_offset toc_data
                                 else Inr toc_data) of
                             Inl e \<Rightarrow> (Inl e, True)
                           | Inr shifted \<Rightarrow> (validate_toc_data lib (PList shifted) 1000, True)))))"

section \<open>The import of a table of contents given by the user\<close>




section \<open>The outline builder\<close>

text \<open>
  The writer of the PDF library is a parameter: \<open>sink w title page_num parent\<close> is its
  \<open>add_outline_item\<close>, which returns the identifier of the new item and the new state of
  the writer, or \<open>None\<close> when it raises, in which case the method \<open>add_outline_item\<close> of
  the source returns \<open>-1\<close>; \<open>clear w\<close> is the writer after the assignment
  \<open>outline_root = []\<close>. Beside the flag and the writer, the model returns the items it
  created, in order, each with its entry, its identifier and the parent it was given.
\<close>

record 'i outline_node =
  node_entry :: "int toc_item"
  node_id :: 'i
  node_parent :: "'i option"

text \<open>The search \<open>for prev_level in range(level - 1, 0, -1)\<close> in \<open>parent_map\<close>.\<close>

fun find_parent :: "(int \<rightharpoonup> 'i) \<Rightarrow> nat \<Rightarrow> 'i option" where
  "find_parent parent_map 0 = None"
| "find_parent parent_map (Suc k) =
     (case parent_map (int (Suc k)) of
        Some i \<Rightarrow> Some i
      | None \<Rightarrow> find_parent parent_map k)"

fun bookmark_loop ::
  "('w \<Rightarrow> string \<Rightarrow> int \<Rightarrow> 'i option \<Rightarrow> ('i \<times> 'w) option) \<Rightarrow> int \<Rightarrow>
   (int \<rightharpoonup> 'i) \<Rightarrow> 'w \<Rightarrow> int toc_item list \<Rightarrow> 'w \<times> 'i outline_node list" where
  "bookmark_loop sink num_pages parent_map w [] = (w, [])"
| "bookmark_loop sink num_pages parent_map w (item # items) =
     (if page item < 0 \<or> page item \<ge> num_pages
      then bookmark_loop sink num_pages parent_map w items
      else (let parent_id = (if level item > 1 then find_parent parent_map (nat (level item - 1))
                             else None)
            in case sink w (title item) (page item) parent_id of
                 None \<Rightarrow> bookmark_loop sink num_pages parent_map w items
               | Some (outline_id, w') \<Rightarrow>
                   (let (w'', nodes) =
                          bookmark_loop sink num_pages (parent_map(level item \<mapsto> outline_id)) w' items
                    in (w'', \<lparr>node_entry = item, node_id = outline_id, node_parent = parent_id\<rparr> # nodes))))"

definition create_bookmarks_from_toc ::
  "('w \<Rightarrow> string \<Rightarrow> int \<Rightarrow> 'i option \<Rightarrow> ('i \<times> 'w) option) \<Rightarrow> ('w \<Rightarrow> 'w) \<Rightarrow> int \<Rightarrow>
   'w option \<Rightarrow> int toc_item list \<Rightarrow> bool \<times> 'w option \<times> 'i outline_node list" where
  "create_bookmarks_from_toc sink clear num_pages writer toc_data =
     (case writer of
        None \<Rightarrow> (False, None, [])
      | Some w \<Rightarrow>
          (let (w', nodes) = bookmark_loop sink num_pages Map.empty (clear w) toc_data
           in (True, Some w', nodes)))"

text \<open>
  A sink for the examples: the writer is the list of the items it holds, and the
  identifier of a new item is its position in that list.
\<close>

definition list_sink ::
  "(string \<times> int \<times> nat option) list \<Rightarrow> string \<Rightarrow> int \<Rightarrow> nat option \<Rightarrow>
   (nat \<times> (string \<times> int \<times> nat option) list) option" where
  "list_sink w t p par = Some (length w, w @ [(t, p, par)])"

text \<open>
  The parent as the specification words it, over the items created so far, oldest first:
  among the levels from 1 up to below the level of the entry that some created item has,
  take the greatest, and of the items of that level the one created last; without such a
  level the parent is the virtual root, \<open>None\<close>.
\<close>

definition most_recent_at :: "'i outline_node list \<Rightarrow> int \<Rightarrow> 'i option" where
  "most_recent_at created l =
     (let at_level = filter (\<lambda>n. level (node_entry n) = l) created
      in if at_level = [] then None else Some (node_id (last at_level)))"

definition spec_parent :: "'i outline_node list \<Rightarrow> int \<Rightarrow> 'i option" where
  "spec_parent created l =
     (let lower = filter (\<lambda>j. 1 \<le> j \<and> j < l) (map (\<lambda>n. level (node_entry n)) created)
      in if lower = [] then None else most_recent_at created (Max (set lower)))"

text \<open>The levels from 1 to \<open>k\<close> that some created item has.\<close>

definition lower_levels :: "'i outline_node list \<Rightarrow> nat \<Rightarrow> int set" where
  "lower_levels created k = {j \<in> (\<lambda>n. level (node_entry n)) ` set created. 1 \<le> j \<and> j \<le> int k}"

section \<open>Properties of the pattern fallback extractor\<close>

text \<open>
  C2. The three lines \<open>1. Intro  1\<close>, \<open>1.1 Scope  2\<close> and \<open>2. Methods  10\<close>, offset 0. The
  numbering of the pattern cannot end in a dot and must be followed by white space, so
  the first and the third line do not match, although the comment above the pattern
  lists that form as supported: the extractor returns the one entry of the second line,
  not three entries with the pages 1, 2, 10 and the levels 1, 2, 1.
\<close>

theorem simple_parsing_three_lines:
  "extract_toc_with_simple_parsing
     (''1. Intro  1'' @ [CHR 0x0A] @ ''1.1 Scope  2'' @ [CHR 0x0A] @ ''2. Methods  10'') 0
   = [\<lparr>title = ''Scope'', page = 2, level = 2\<rparr>]"
  by code_simp

text \<open>
  C6, as stated: the line \<open>  2.1 Background ... 12\<close> with offset 0 yields exactly the
  entry with the title \<open>Background\<close>, page 12 and level 2. It does not: the title group
  runs up to the white space before the page number and keeps the dots.
\<close>

theorem simple_parsing_background_counterexample:
  "extract_toc_with_simple_parsing ''  2.1 Background ... 12'' 0
   \<noteq> [\<lparr>title = ''Background'', page = 12, level = 2\<rparr>]"
  by code_simp

text \<open>
  C6, amended: the line \<open>  2.1 Background ... 12\<close> yields exactly one entry, with the title
  \<open>Background ...\<close>, level 2 and page 12 with offset 0, and the same entry with page 15
  with offset 3.
\<close>

theorem simple_parsing_background:
  "extract_toc_with_simple_parsing ''  2.1 Background ... 12'' 0
     = [\<lparr>title = ''Background ...'', page = 12, level = 2\<rparr>]
   \<and> extract_toc_with_simple_parsing ''  2.1 Background ... 12'' 3
     = [\<lparr>title = ''Background ...'', page = 15, level = 2\<rparr>]"
  by code_simp

text \<open>
  C7. The line \<open>    1 Intro 5\<close> has four leading blanks and one numbering group, so the
  claim gives it level 2. The line is stripped before it is matched, the indent group is
  always empty, and the extractor returns level 1.
\<close>

theorem simple_parsing_indent_ignored:
  "extract_toc_with_simple_parsing ''    1 Intro 5'' 0
   = [\<lparr>title = ''Intro'', page = 5, level = 1\<rparr>]"
  by code_simp

section \<open>Properties of the validator\<close>

subsection \<open>Stripping\<close>

lemma lstrip_fixed: "s = [] \<or> \<not> isspace (hd s) \<Longrightarrow> lstrip s = s"
  by (cases s) (auto simp: lstrip_def)

lemma rstrip_fixed: "s = [] \<or> \<not> isspace (last s) \<Longrightarrow> rstrip s = s"
  by (cases s rule: rev_cases) (auto simp: rstrip_def)

lemma rstrip_last: "rstrip s \<noteq> [] \<Longrightarrow> \<not> isspace (last (rstrip s))"
  unfolding rstrip_def using hd_dropWhile [of isspace "rev s"]
  by (simp add: last_rev)

lemma rstrip_prefix: "\<exists>t. s = rstrip s @ t"
proof -
  have "rev s = takeWhile isspace (rev s) @ dropWhile isspace (rev s)" by simp
  then have "s = rev (dropWhile isspace (rev s)) @ rev (takeWhile isspace (rev s))"
    by (metis rev_append rev_rev_ident)
  then show ?thesis unfolding rstrip_def by blast
qed

lemma rstrip_hd: "rstrip s \<noteq> [] \<Longrightarrow> hd (rstrip s) = hd s"
  using rstrip_prefix [of s] by (metis hd_append2)

lemma lstrip_hd: "lstrip s \<noteq> [] \<Longrightarrow> \<not> isspace (hd (lstrip s))"
  unfolding lstrip_def using hd_dropWhile [of isspace s] by simp

lemma strip_idem: "strip (strip s) = strip s"
proof (cases "strip s = []")
  case True
  have "strip [] = []" by (simp add: strip_def lstrip_def rstrip_def)
  with True show ?thesis by simp
next
  case False
  then have ne: "rstrip (lstrip s) \<noteq> []" by (simp add: strip_def)
  then have "lstrip s \<noteq> []" by (auto simp: rstrip_def)
  then have "\<not> isspace (hd (lstrip s))" by (rule lstrip_hd)
  with ne have h: "\<not> isspace (hd (strip s))" by (simp add: strip_def rstrip_hd)
  from ne have l: "\<not> isspace (last (strip s))" by (simp add: strip_def rstrip_last)
  from h have "lstrip (strip s) = strip s" by (simp add: lstrip_fixed)
  moreover from l have "rstrip (strip s) = strip s" by (simp add: rstrip_fixed)
  ultimately show ?thesis by (simp add: strip_def [of "strip s"])
qed


subsection \<open>What is kept of one candidate\<close>

lemma coerce_int_Inr:
  assumes "coerce_int lib v = Inr w"
  shows "coerce_int lib w = Inr w"
proof (cases v)
  case (PFloat f)
  with assms obtain i where "w = PInt i"
    by (auto simp: coerce_int_def map_sum_def split: sum.splits)
  then show ?thesis by (simp add: coerce_int_def)
next
  case (PStr s)
  with assms obtain i where "w = PInt i"
    by (auto simp: coerce_int_def map_sum_def split: sum.splits option.splits)
  then show ?thesis by (simp add: coerce_int_def)
qed (use assms in \<open>auto simp: coerce_int_def\<close>)

lemma validate_item_KeepE:
  assumes "validate_item lib m x = Keep e"
  obtains d t p l lv where "x = PDict d" "map_of d ''title'' = Some t"
    "map_of d ''page'' = Some p" "map_of d ''level'' = Some l"
    "coerce_int lib p = Inr (page e)"
    "int_val (page e) = - 1 \<or> (1 \<le> int_val (page e) \<and> int_val (page e) \<le> m)"
    "title e = strip (py_str lib t)" "title e \<noteq> []"
    "coerce_int lib l = Inr lv" "level e = min 6 (max 1 (int_val lv))"
proof -
  from assms obtain d where x: "x = PDict d"
    by (cases x) (simp_all add: validate_item_def)
  from assms x obtain t p l where f: "map_of d ''title'' = Some t"
    "map_of d ''page'' = Some p" "map_of d ''level'' = Some l"
    by (auto simp: validate_item_def split: option.splits)
  from assms x f obtain pg where pg: "coerce_int lib p = Inr pg"
    by (cases "coerce_int lib p") (auto simp: validate_item_def caught_def split: if_splits)
  from assms x f pg have rng: "int_val pg = - 1 \<or> (1 \<le> int_val pg \<and> int_val pg \<le> m)"
    by (auto simp: validate_item_def split: if_splits)
  then have nr: "\<not> (int_val pg \<noteq> - 1 \<and> (int_val pg < 1 \<or> m < int_val pg))" by auto
  from assms x f pg nr have ti: "strip (py_str lib t) \<noteq> []"
    by (auto simp: validate_item_def Let_def split: if_splits)
  from assms x f pg nr ti obtain lv where lv: "coerce_int lib l = Inr lv"
    by (cases "coerce_int lib l") (auto simp: validate_item_def Let_def caught_def split: if_splits)
  from assms x f pg nr ti lv
  have e: "e = \<lparr>title = strip (py_str lib t), page = pg, level = min 6 (max 1 (int_val lv))\<rparr>"
    by (simp add: validate_item_def Let_def)
  show thesis
    by (rule that [OF x f]) (use e pg rng ti lv in simp_all)
qed

subsection \<open>The loop and the second pass\<close>

lemma validate_loop_Inr:
  "validate_loop lib m xs = Inr out \<Longrightarrow>
   \<forall>e \<in> set out. \<exists>x \<in> set xs. validate_item lib m x = Keep e"
proof (induction xs arbitrary: out)
  case Nil
  then show ?case by simp
next
  case (Cons x xs)
  show ?case
  proof (cases "validate_item lib m x")
    case (Keep v)
    with Cons.prems obtain out' where o: "validate_loop lib m xs = Inr out'" "out = v # out'"
      by (cases "validate_loop lib m xs") auto
    with Cons.IH [OF o(1)] Keep show ?thesis by auto
  next
    case (Drop r)
    with Cons.prems have "validate_loop lib m xs = Inr out" by simp
    with Cons.IH show ?thesis by auto
  next
    case (Raise e)
    with Cons.prems show ?thesis by simp
  qed
qed

lemma set_dedup_by: "set (dedup_by key seen xs) \<subseteq> set xs"
  by (induction xs arbitrary: seen) auto

lemma distinct_dedup_by:
  "distinct (map key (dedup_by key seen xs)) \<and> set (map key (dedup_by key seen xs)) \<inter> set seen = {}"
proof (induction xs arbitrary: seen)
  case Nil
  then show ?case by simp
next
  case (Cons x xs)
  show ?case
  proof (cases "key x \<in> set seen")
    case True
    with Cons.IH [of seen] show ?thesis by simp
  next
    case False
    with Cons.IH [of "key x # seen"] show ?thesis by auto
  qed
qed

lemma dedup_by_distinct:
  "distinct (map key xs) \<Longrightarrow> set (map key xs) \<inter> set seen = {} \<Longrightarrow> dedup_by key seen xs = xs"
  by (induction xs arbitrary: seen) auto

lemma validate_toc_data_Inr:
  assumes "validate_toc_data lib (PList xs) m = Inr out"
  shows "\<forall>e \<in> set out. \<exists>x \<in> set xs. validate_item lib m x = Keep e"
    and "distinct (map (dedup_key lib) out)"
proof -
  from assms obtain mid where mid: "validate_loop lib m xs = Inr mid"
    and out: "out = dedup_by (dedup_key lib) [] mid"
    by (cases "validate_loop lib m xs") (auto simp: validate_toc_data_def)
  from validate_loop_Inr [OF mid] set_dedup_by [of "dedup_key lib" "[]" mid] out
  show "\<forall>e \<in> set out. \<exists>x \<in> set xs. validate_item lib m x = Keep e" by blast
  from distinct_dedup_by [of "dedup_key lib" "[]" mid] out
  show "distinct (map (dedup_key lib) out)" by simp
qed

subsection \<open>Validating what was validated\<close>

lemma validate_item_as_dict:
  assumes "validate_item lib m x = Keep e"
  shows "validate_item lib m (as_dict e) = Keep e"
proof -
  from assms obtain d t p l lv where h: "coerce_int lib p = Inr (page e)"
    "int_val (page e) = - 1 \<or> (1 \<le> int_val (page e) \<and> int_val (page e) \<le> m)"
    "title e = strip (py_str lib t)" "title e \<noteq> []"
    "level e = min 6 (max 1 (int_val lv))"
    by (rule validate_item_KeepE)
  have p: "coerce_int lib (page e) = Inr (page e)" using h(1) by (rule coerce_int_Inr)
  have t: "strip (title e) = title e" using h(3) by (simp add: strip_idem)
  have l: "min 6 (max 1 (level e)) = level e" using h(5) by simp
  have nr: "\<not> (int_val (page e) \<noteq> - 1 \<and> (int_val (page e) < 1 \<or> m < int_val (page e)))"
    using h(2) by auto
  show ?thesis
    using p t l nr h(4)
    by (simp add: validate_item_def as_dict_def py_str_def coerce_int_def [of lib "PInt _"] int_val_def)
qed

lemma validate_loop_as_dict:
  "\<forall>e \<in> set out. \<exists>x. validate_item lib m x = Keep e \<Longrightarrow>
   validate_loop lib m (map as_dict out) = Inr out"
proof (induction out)
  case Nil
  then show ?case by simp
next
  case (Cons e out)
  then obtain x where "validate_item lib m x = Keep e" by auto
  then have "validate_item lib m (as_dict e) = Keep e" by (rule validate_item_as_dict)
  with Cons show ?case by simp
qed

lemma validate_idempotent_Inr:
  assumes "validate_toc_data lib (PList xs) m = Inr out"
  shows "validate_toc_data lib (PList (map as_dict out)) m = Inr out"
proof -
  from validate_toc_data_Inr(1) [OF assms]
  have "\<forall>e \<in> set out. \<exists>x. validate_item lib m x = Keep e" by blast
  then have "validate_loop lib m (map as_dict out) = Inr out" by (rule validate_loop_as_dict)
  moreover have "dedup_by (dedup_key lib) [] out = out"
    using validate_toc_data_Inr(2) [OF assms] by (simp add: dedup_by_distinct)
  ultimately show ?thesis by (simp add: validate_toc_data_def)
qed


subsection \<open>The page range and idempotence\<close>

lemma validate_page_range_item:
  assumes "map_of d ''title'' = Some t" "map_of d ''page'' = Some p" "map_of d ''level'' = Some l"
    and "coerce_int lib p = Inr q"
  shows "(int_val q \<noteq> - 1 \<and> (int_val q < 1 \<or> max_pages < int_val q)
            \<longrightarrow> validate_item lib max_pages (PDict d) = Drop PageOutOfRange)
       \<and> (int_val q = - 1 \<longrightarrow> validate_item lib max_pages (PDict d) \<noteq> Drop PageOutOfRange)"
  using assms
  by (auto simp: validate_item_def Let_def caught_def split: sum.splits)

text \<open>
  C4. For every candidate list and every \<open>max_pages\<close>: a candidate with the three fields
  whose page converts to a number that is neither \<open>-1\<close> nor in \<open>[1, max_pages]\<close> is dropped
  with the diagnostic of the range check, and one whose page converts to \<open>-1\<close> is never
  dropped by that check; a candidate dropped by the range check does not change what the
  loop returns for the others; and no entry of a returned list has a page outside
  \<open>{-1} \<union> [1, max_pages]\<close>.
\<close>

theorem validate_page_range:
  "(\<forall>d t p l q. map_of d ''title'' = Some t \<and> map_of d ''page'' = Some p \<and> map_of d ''level'' = Some l
        \<and> coerce_int lib p = Inr q \<longrightarrow>
        (int_val q \<noteq> - 1 \<and> (int_val q < 1 \<or> max_pages < int_val q)
            \<longrightarrow> validate_item lib max_pages (PDict d) = Drop PageOutOfRange)
      \<and> (int_val q = - 1 \<longrightarrow> validate_item lib max_pages (PDict d) \<noteq> Drop PageOutOfRange))
   \<and> (\<forall>x xs. validate_item lib max_pages x = Drop PageOutOfRange \<longrightarrow>
         validate_loop lib max_pages (x # xs) = validate_loop lib max_pages xs)
   \<and> (\<forall>xs out. validate_toc_data lib (PList xs) max_pages = Inr out \<longrightarrow>
         (\<forall>e \<in> set out. int_val (page e) = - 1 \<or> (1 \<le> int_val (page e) \<and> int_val (page e) \<le> max_pages)))"
proof (intro conjI allI impI)
  fix xs out e
  assume v: "validate_toc_data lib (PList xs) max_pages = Inr out"
  show "\<forall>e \<in> set out. int_val (page e) = - 1 \<or> (1 \<le> int_val (page e) \<and> int_val (page e) \<le> max_pages)"
  proof
    fix e assume "e \<in> set out"
    with validate_toc_data_Inr(1) [OF v] obtain x where "validate_item lib max_pages x = Keep e"
      by blast
    then show "int_val (page e) = - 1 \<or> (1 \<le> int_val (page e) \<and> int_val (page e) \<le> max_pages)"
      by (rule validate_item_KeepE)
  qed
qed (use validate_page_range_item in \<open>simp_all\<close>)

theorem validate_page_range_witness:
  "validate_item example_lib 10
     (PDict [(''title'', PStr ''C''), (''page'', PInt 11), (''level'', PInt 1)]) = Drop PageOutOfRange
   \<and> validate_item example_lib 10
     (PDict [(''title'', PStr ''B''), (''page'', PInt (- 1)), (''level'', PInt 2)]) \<noteq> Drop PageOutOfRange"
  using validate_page_range [where lib = example_lib and max_pages = 10, THEN conjunct1, rule_format,
          of "[(''title'', PStr ''C''), (''page'', PInt 11), (''level'', PInt 1)]"
             "PStr ''C''" "PInt 11" "PInt 1" "PInt 11"]
        validate_page_range [where lib = example_lib and max_pages = 10, THEN conjunct1, rule_format,
          of "[(''title'', PStr ''B''), (''page'', PInt (- 1)), (''level'', PInt 2)]"
             "PStr ''B''" "PInt (- 1)" "PInt 2" "PInt (- 1)"]
  by (simp add: coerce_int_def int_val_def)

text \<open>
  C8. Validation is idempotent: for every list \<open>xs\<close> and bound \<open>m\<close>, validating the result of
  \<open>validate_toc_data(xs, m)\<close> again with \<open>m\<close> returns that result, with the same entries in
  the same order; when the first validation raises, so does the composition.
\<close>

theorem validate_idempotent:
  "(case validate_toc_data lib (PList xs) m of
      Inl e \<Rightarrow> Inl e
    | Inr out \<Rightarrow> validate_toc_data lib (PList (map as_dict out)) m)
   = validate_toc_data lib (PList xs) m"
  by (cases "validate_toc_data lib (PList xs) m") (simp_all add: validate_idempotent_Inr)

theorem validate_idempotent_witness:
  "validate_toc_data example_lib
     (PList (map as_dict [\<lparr>title = ''A'', page = PInt 7, level = 6\<rparr>,
                          \<lparr>title = ''B'', page = PInt (- 1), level = 2\<rparr>])) 10
   = Inr [\<lparr>title = ''A'', page = PInt 7, level = 6\<rparr>, \<lparr>title = ''B'', page = PInt (- 1), level = 2\<rparr>]"
proof -
  have "validate_toc_data example_lib (PList [
          PDict [(''title'', PStr '' A ''), (''page'', PInt 7), (''level'', PInt 9)],
          PDict [(''title'', PStr ''B''), (''page'', PInt (- 1)), (''level'', PStr ''2'')],
          PDict [(''title'', PStr ''A''), (''page'', PStr ''7''), (''level'', PInt 0)],
          PDict [(''title'', PStr ''C''), (''page'', PInt 11), (''level'', PInt 1)],
          PInt 3]) 10
        = Inr [\<lparr>title = ''A'', page = PInt 7, level = 6\<rparr>, \<lparr>title = ''B'', page = PInt (- 1), level = 2\<rparr>]"
    by code_simp
  with validate_idempotent [where lib = example_lib and m = 10 and xs = "[
          PDict [(''title'', PStr '' A ''), (''page'', PInt 7), (''level'', PInt 9)],
          PDict [(''title'', PStr ''B''), (''page'', PInt (- 1)), (''level'', PStr ''2'')],
          PDict [(''title'', PStr ''A''), (''page'', PStr ''7''), (''level'', PInt 0)],
          PDict [(''title'', PStr ''C''), (''page'', PInt 11), (''level'', PInt 1)],
          PInt 3]"]
  show ?thesis by simp
qed

section \<open>Properties of the extraction from text\<close>

text \<open>
  The validator clamps: every entry of a list it returns has a level from 1 to 6.
\<close>

lemma validate_toc_data_level:
  assumes "validate_toc_data lib (PList xs) m = Inr out" and "e \<in> set out"
  shows "1 \<le> level e \<and> level e \<le> 6"
proof -
  from validate_toc_data_Inr(1) [OF assms(1)] assms(2)
  obtain x where "validate_item lib m x = Keep e" by blast
  then show ?thesis by (rule validate_item_KeepE) simp
qed

text \<open>
  C1. When the model cannot be initialised, \<open>extract_toc_from_text\<close> returns what the
  pattern fallback produced, without validation; the line \<open>1.1.1.1.1.1.1 Deep 5\<close> has seven
  numbering groups, and the entry returned for it has level 7, above the bound of 6 that
  the validated results keep.
\<close>

theorem extract_toc_from_text_level_seven:
  "extract_toc_from_text lib \<lparr>llm_ready = False, initialize_ok = False, invoke = respond\<rparr>
     ''1.1.1.1.1.1.1 Deep 5'' 0
   = (Inr [\<lparr>title = ''Deep'', page = PInt 5, level = 7\<rparr>], False)"
proof -
  have "extract_toc_with_simple_parsing ''1.1.1.1.1.1.1 Deep 5'' 0
        = [\<lparr>title = ''Deep'', page = 5, level = 7\<rparr>]"
    by code_simp
  then show ?thesis by (simp add: extract_toc_from_text_def as_py_def)
qed

section \<open>Properties of the response parser\<close>

subsection \<open>Cleaning a fenced response\<close>

text \<open>
  A response that opens with a fence line and closes with a fence is cleaned to its body,
  stripped, and then freed of a leading \<open>json\<close> line.
\<close>

lemma split_on_not_Nil: "split_on d s \<noteq> []"
  by (induction s) (auto split: list.splits)

lemma split_on_append: "split_on d (a @ d # b) = split_on d a @ split_on d b"
proof (induction a)
  case Nil
  then show ?case by simp
next
  case (Cons c a)
  obtain w ws where "split_on d a = w # ws"
    using split_on_not_Nil [of d a] by (cases "split_on d a") auto
  with Cons show ?case by simp
qed

lemma split_on_no_sep: "d \<notin> set s \<Longrightarrow> split_on d s = [s]"
  by (induction s) auto

lemma join_with_Cons: "join_with d ((c # w) # ws) = c # join_with d (w # ws)"
  by (cases ws) simp_all

lemma join_split_on: "join_with d (split_on d s) = s"
proof (induction s)
  case Nil
  then show ?case by simp
next
  case (Cons c s)
  obtain w ws where w: "split_on d s = w # ws"
    using split_on_not_Nil [of d s] by (cases "split_on d s") auto
  show ?case
  proof (cases "c = d")
    case True
    with w Cons show ?thesis by simp
  next
    case False
    with w Cons show ?thesis by (simp add: join_with_Cons)
  qed
qed

lemma strip_fixed: "s \<noteq> [] \<Longrightarrow> \<not> isspace (hd s) \<Longrightarrow> \<not> isspace (last s) \<Longrightarrow> strip s = s"
  by (simp add: strip_def lstrip_fixed rstrip_fixed)

lemma clean_response_fenced:
  assumes "CHR 0x0A \<notin> set tag"
  shows "clean_response (''```'' @ tag @ CHR 0x0A # body @ CHR 0x0A # ''```'')
         = strip_tag (strip body)"
proof -
  let ?r = "''```'' @ tag @ CHR 0x0A # body @ CHR 0x0A # ''```''"
  have tick: "\<not> isspace CHR ''`''" by (simp add: isspace_def)
  have "strip ?r = ?r"
    by (rule strip_fixed) (simp_all add: tick)
  moreover have "startswith ?r ''```''" by (simp add: startswith_def)
  moreover have "CHR 0x0A \<in> set ?r" by simp
  moreover have lines: "split_on CHR 0x0A ?r = (''```'' @ tag) # split_on CHR 0x0A body @ [''```'']"
  proof -
    have "?r = (''```'' @ tag) @ CHR 0x0A # (body @ CHR 0x0A # ''```'')" by simp
    then have "split_on CHR 0x0A ?r
               = split_on CHR 0x0A (''```'' @ tag) @ split_on CHR 0x0A (body @ CHR 0x0A # ''```'')"
      by (simp only: split_on_append)
    also have "split_on CHR 0x0A (''```'' @ tag) = [''```'' @ tag]"
      using assms by (intro split_on_no_sep) simp
    also have "split_on CHR 0x0A (body @ CHR 0x0A # ''```'') = split_on CHR 0x0A body @ [''```'']"
      by (simp only: split_on_append) simp
    finally show ?thesis by simp
  qed
  moreover have "strip ''```'' = ''```''"
    by (rule strip_fixed) (simp_all add: tick)
  moreover have "3 \<le> length (split_on CHR 0x0A ?r)"
    using split_on_not_Nil [of "CHR 0x0A" body] unfolding lines
    by (cases "split_on CHR 0x0A body") simp_all
  moreover have "last (split_on CHR 0x0A ?r) = ''```''"
    unfolding lines by simp
  moreover have "butlast (tl (split_on CHR 0x0A ?r)) = split_on CHR 0x0A body"
    unfolding lines by (simp add: butlast_append)
  ultimately have "strip_fence (strip ?r) = strip body"
    by (simp only: strip_fence_def Let_def join_split_on if_True simp_thms)
  then show ?thesis by (simp only: clean_response_def)
qed

subsection \<open>The text between the first and the last bracket\<close>







section \<open>Properties of the import of a table of contents given by the user\<close>




section \<open>Properties of the outline builder\<close>

subsection \<open>The map of parents records the item created last at each level\<close>

lemma most_recent_at_snoc:
  "most_recent_at (created @ [n]) = (most_recent_at created)(level (node_entry n) \<mapsto> node_id n)"
  by (rule ext) (simp add: most_recent_at_def Let_def)

lemma most_recent_at_None: "most_recent_at created l = None \<longleftrightarrow> l \<notin> (\<lambda>n. level (node_entry n)) ` set created"
  by (auto simp: most_recent_at_def Let_def filter_empty_conv)


lemma finite_lower: "finite (lower_levels created k)"
  by (simp add: lower_levels_def)

lemma find_parent_Max:
  "find_parent (most_recent_at created) k =
     (if lower_levels created k = {} then None
      else most_recent_at created (Max (lower_levels created k)))"
proof (induction k)
  case 0
  then show ?case by (auto simp: lower_levels_def)
next
  case (Suc k)
  show ?case
  proof (cases "most_recent_at created (int (Suc k))")
    case None
    then have "int (Suc k) \<notin> (\<lambda>n. level (node_entry n)) ` set created"
      by (simp add: most_recent_at_None)
    then have "lower_levels created (Suc k) = lower_levels created k"
      unfolding lower_levels_def by (auto simp: image_iff)
    with None Suc show ?thesis by simp
  next
    case (Some i)
    then have "int (Suc k) \<in> (\<lambda>n. level (node_entry n)) ` set created"
      using most_recent_at_None [of created "int (Suc k)"] by auto
    then have m: "int (Suc k) \<in> lower_levels created (Suc k)"
      by (simp add: lower_levels_def)
    moreover have "\<forall>j \<in> lower_levels created (Suc k). j \<le> int (Suc k)"
      by (simp add: lower_levels_def)
    ultimately have "Max (lower_levels created (Suc k)) = int (Suc k)"
      using finite_lower [of created "Suc k"] by (intro Max_eqI) auto
    with Some m show ?thesis by auto
  qed
qed

lemma spec_parent_find_parent:
  "(if l > 1 then find_parent (most_recent_at created) (nat (l - 1)) else None) = spec_parent created l"
proof -
  have s: "set (filter (\<lambda>j. 1 \<le> j \<and> j < l) (map (\<lambda>n. level (node_entry n)) created))
           = lower_levels created (nat (l - 1))"
    by (auto simp: lower_levels_def)
  show ?thesis
  proof (cases "l > 1")
    case True
    then show ?thesis
      unfolding spec_parent_def Let_def find_parent_Max s [symmetric]
      by (simp only: set_empty if_True) 
  next
    case False
    then have "filter (\<lambda>j. 1 \<le> j \<and> j < l) (map (\<lambda>n. level (node_entry n)) created) = []"
      by (auto simp: filter_empty_conv)
    with False show ?thesis by (simp add: spec_parent_def)
  qed
qed

lemma bookmark_loop_parents:
  "bookmark_loop sink np (most_recent_at created) w items = (w', nodes) \<Longrightarrow> k < length nodes \<Longrightarrow>
   node_parent (nodes ! k) = spec_parent (created @ take k nodes) (level (node_entry (nodes ! k)))"
proof (induction items arbitrary: created w w' nodes k)
  case Nil
  then show ?case by simp
next
  case (Cons item items)
  let ?par = "if level item > 1 then find_parent (most_recent_at created) (nat (level item - 1)) else None"
  show ?case
  proof (cases "page item < 0 \<or> page item \<ge> np")
    case True
    with Cons.prems have "bookmark_loop sink np (most_recent_at created) w items = (w', nodes)"
      by simp
    from Cons.IH [OF this Cons.prems(2)] show ?thesis .
  next
    case False
    show ?thesis
    proof (cases "sink w (title item) (page item) ?par")
      case None
      with False Cons.prems have "bookmark_loop sink np (most_recent_at created) w items = (w', nodes)"
        by (simp add: Let_def)
      from Cons.IH [OF this Cons.prems(2)] show ?thesis .
    next
      case (Some r)
      obtain i w1 where r: "r = (i, w1)" by (cases r)
      let ?n = "\<lparr>node_entry = item, node_id = i, node_parent = ?par\<rparr>"
      obtain w2 rest where
        l: "bookmark_loop sink np ((most_recent_at created)(level item \<mapsto> i)) w1 items = (w2, rest)"
        by (cases "bookmark_loop sink np ((most_recent_at created)(level item \<mapsto> i)) w1 items")
      with False Some r Cons.prems have n: "nodes = ?n # rest"
        by (simp add: Let_def)
      have m: "(most_recent_at created)(level item \<mapsto> i) = most_recent_at (created @ [?n])"
        by (simp add: most_recent_at_snoc)
      show ?thesis
      proof (cases k)
        case 0
        with n show ?thesis by (simp add: spec_parent_find_parent)
      next
        case (Suc j)
        with n Cons.prems have j: "j < length rest" by simp
        from l m have "bookmark_loop sink np (most_recent_at (created @ [?n])) w1 items = (w2, rest)"
          by simp
        from Cons.IH [OF this j] n Suc show ?thesis by simp
      qed
    qed
  qed
qed

lemma most_recent_at_Nil: "most_recent_at [] = Map.empty"
  by (rule ext) (simp add: most_recent_at_def)

text \<open>
  C5. For every writer, page count and list of entries, the parent given to each created
  item is the one the specification names: the item created last among those whose level
  is the greatest level below the level of the entry, searched from one below it down to
  1, and the virtual root if there is none. For \<open>A\<close> (1), \<open>A.1\<close> (2), \<open>A.1.1\<close> (3), \<open>B\<close> (1)
  the item \<open>B\<close> has no parent, as \<open>A\<close> has none; for \<open>A\<close> (1), \<open>orphan\<close> (3) the parent of
  \<open>orphan\<close> is \<open>A\<close>.
\<close>

theorem create_bookmarks_parent:
  "(\<forall>ok w' nodes k.
      create_bookmarks_from_toc sink clear num_pages (Some w) toc_data = (ok, w', nodes) \<and> k < length nodes
      \<longrightarrow> node_parent (nodes ! k) = spec_parent (take k nodes) (level (node_entry (nodes ! k))))
   \<and> map (\<lambda>n. (title (node_entry n), node_id n, node_parent n))
        (snd (snd (create_bookmarks_from_toc list_sink (\<lambda>w. []) 10 (Some [])
           [\<lparr>title = ''A'', page = 0, level = 1\<rparr>, \<lparr>title = ''A.1'', page = 1, level = 2\<rparr>,
            \<lparr>title = ''A.1.1'', page = 2, level = 3\<rparr>, \<lparr>title = ''B'', page = 3, level = 1\<rparr>])))
      = [(''A'', 0, None), (''A.1'', 1, Some 0), (''A.1.1'', 2, Some 1), (''B'', 3, None)]
   \<and> map (\<lambda>n. (title (node_entry n), node_id n, node_parent n))
        (snd (snd (create_bookmarks_from_toc list_sink (\<lambda>w. []) 10 (Some [])
           [\<lparr>title = ''A'', page = 0, level = 1\<rparr>, \<lparr>title = ''orphan'', page = 1, level = 3\<rparr>])))
      = [(''A'', 0, None), (''orphan'', 1, Some 0)]"
proof (intro conjI allI impI)
  fix ok w' nodes k
  assume a: "create_bookmarks_from_toc sink clear num_pages (Some w) toc_data = (ok, w', nodes) \<and> k < length nodes"
  then obtain w2 where "bookmark_loop sink num_pages (most_recent_at []) (clear w) toc_data = (w2, nodes)"
    by (auto simp: create_bookmarks_from_toc_def most_recent_at_Nil split: prod.splits)
  from bookmark_loop_parents [OF this] a
  show "node_parent (nodes ! k) = spec_parent (take k nodes) (level (node_entry (nodes ! k)))"
    by simp
qed code_simp+

theorem create_bookmarks_parent_witness:
  "spec_parent
     [\<lparr>node_entry = \<lparr>title = ''A'', page = 0, level = 1\<rparr>, node_id = 0, node_parent = None\<rparr>,
      \<lparr>node_entry = \<lparr>title = ''A.1'', page = 1, level = 2\<rparr>, node_id = 1, node_parent = Some 0\<rparr>,
      \<lparr>node_entry = \<lparr>title = ''C'', page = 3, level = 1\<rparr>, node_id = 2, node_parent = None\<rparr>] 3
   = Some (1 :: nat)"
proof -
  let ?items = "[\<lparr>title = ''A'', page = 0, level = 1\<rparr>, \<lparr>title = ''A.1'', page = 1, level = 2\<rparr>,
                 \<lparr>title = ''B'', page = 12, level = 1\<rparr>, \<lparr>title = ''C'', page = 3, level = 1\<rparr>,
                 \<lparr>title = ''X'', page = 4, level = 3\<rparr>]"
  let ?nodes = "[\<lparr>node_entry = \<lparr>title = ''A'', page = 0, level = 1\<rparr>, node_id = 0, node_parent = None\<rparr>,
      \<lparr>node_entry = \<lparr>title = ''A.1'', page = 1, level = 2\<rparr>, node_id = 1, node_parent = Some 0\<rparr>,
      \<lparr>node_entry = \<lparr>title = ''C'', page = 3, level = 1\<rparr>, node_id = 2, node_parent = None\<rparr>,
      \<lparr>node_entry = \<lparr>title = ''X'', page = 4, level = 3\<rparr>, node_id = 3, node_parent = Some (1 :: nat)\<rparr>]"
  have "create_bookmarks_from_toc list_sink (\<lambda>w. []) 10 (Some []) ?items
        = (True, Some [(''A'', 0, None), (''A.1'', 1, Some 0), (''C'', 3, None), (''X'', 4, Some 1)], ?nodes)"
    by code_simp
  with create_bookmarks_parent [where sink = list_sink and clear = "\<lambda>w. []" and num_pages = 10
         and w = "[]" and toc_data = ?items, THEN conjunct1, rule_format, where k = 3 and nodes = ?nodes]
  show ?thesis by simp
qed

end
